theory Spec2Isabelle
  imports Complex_Main "HOL-Library.Sublist"
begin

section \<open>Values returned by the handlers\<close>

text \<open>
  The handlers of \<^verbatim>\<open>main.py\<close> return Python dictionaries, which the framework serialises
  as they are (no endpoint declares a response model). A dictionary is an association list
  in the order the source writes its keys. Python's \<^verbatim>\<open>float\<close> is idealised as \<open>real\<close>:
  rounding, infinities and NaN are outside this development.
\<close>

datatype pyval =
    PNone
  | PStr string
  | PInt int
  | PFloat real
  | PList "pyval list"
  | PDict "(string \<times> pyval) list"

fun keys :: "pyval \<Rightarrow> string list" where
  "keys (PDict kvs) = map fst kvs"
| "keys _ = []"

fun getitem :: "pyval \<Rightarrow> string \<Rightarrow> pyval option" where
  "getitem (PDict kvs) k = map_of kvs k"
| "getitem _ k = None"

subsection \<open>\<^verbatim>\<open>str\<close> of an integer, and reading it back\<close>

definition digit_char :: "nat \<Rightarrow> char" where
  "digit_char d = ''0123456789'' ! d"

function str_nat :: "nat \<Rightarrow> string" where
  "str_nat n = (if n < 10 then [digit_char n] else str_nat (n div 10) @ [digit_char (n mod 10)])"
  by pat_completeness auto
termination
  by (relation "measure (\<lambda>n. n)") auto

declare str_nat.simps [simp del]

definition str_int :: "int \<Rightarrow> string" where
  "str_int i = (if i < 0 then CHR ''-'' # str_nat (nat (- i)) else str_nat (nat i))"




section \<open>Pagination (lines 157-166 and 255-264, the same text in both handlers)\<close>

definition pagination :: "int \<Rightarrow> int \<Rightarrow> int \<Rightarrow> pyval" where
  "pagination limit offset total_count =
     (let next_offset = (if offset + limit < total_count then Some (offset + limit) else None);
          prev_offset = (if offset > 0 then Some (max 0 (offset - limit)) else None)
      in PDict
          [(''next'', case next_offset of Some n \<Rightarrow> PStr (str_int n) | None \<Rightarrow> PNone),
           (''limit'', PInt limit),
           (''previous'', case prev_offset of Some p \<Rightarrow> PStr (str_int p) | None \<Rightarrow> PNone)])"

section \<open>Identifiers of the store\<close>

text \<open>
  \<^verbatim>\<open>bson.ObjectId\<close> is a library outside the repository. It is modelled by its documented
  contract: a string is accepted exactly when it is 24 hexadecimal digits (either case), and
  the identifier is the 96-bit number they spell; every other string is taken as rejected.
  \<^verbatim>\<open>str\<close> of an identifier is its 24 lower-case hexadecimal digits. Identifiers are
  ordered as numbers, which is the order of their twelve bytes.
\<close>

type_synonym oid = nat

definition hex_val :: "char \<Rightarrow> nat option" where
  "hex_val c = map_of (zip ''0123456789abcdefABCDEF'' ([0 ..< 16] @ [10 ..< 16])) c"

definition hex_char :: "nat \<Rightarrow> char" where
  "hex_char d = ''0123456789abcdef'' ! d"

definition ObjectId :: "string \<Rightarrow> oid option" where
  "ObjectId s =
     (if length s = 24
      then map_option (foldl (\<lambda>a d. 16 * a + d) 0) (those (map hex_val s))
      else None)"

definition str_oid :: "oid \<Rightarrow> string" where
  "str_oid n = map (\<lambda>k. hex_char (n div 16 ^ k mod 16)) (rev [0 ..< 24])"

section \<open>Request bodies and stored documents\<close>

text \<open>
  The request bodies are the pydantic classes of lines 37-63: they fix the type of every
  field and nothing else (no class gives a range to \<^verbatim>\<open>price\<close>, \<^verbatim>\<open>quantity\<close> or
  \<^verbatim>\<open>qty\<close>). The two collections hold the documents the handlers insert, with the
  \<^verbatim>\<open>_id\<close> the store gives them.
\<close>

record Size =
  size_label :: string
  quantity :: int

record ProductCreate =
  p_name :: string
  p_price :: real
  p_sizes :: "Size list"

record OrderItem =
  productId :: string
  qty :: int

record OrderCreate =
  userId :: string
  items :: "OrderItem list"

record ProductDetails =
  pd_name :: string
  pd_id :: string

record OrderItemDetails =
  productDetails :: ProductDetails
  od_qty :: int

text \<open>The dictionary \<^verbatim>\<open>order_doc\<close> of lines 214-219.\<close>

record order_doc =
  o_userId :: string
  o_items :: "OrderItemDetails list"
  o_total :: real
  o_createdAt :: nat

text \<open>A stored document is the inserted one together with its \<^verbatim>\<open>_id\<close>.\<close>

type_synonym 'a stored = "oid \<times> 'a"

section \<open>The store\<close>

text \<open>
  Exceptions are values. \<open>PyMongoError\<close> stands for any exception a call of the store
  client raises, with the text \<^verbatim>\<open>str\<close> gives it (a call of the store answers
  \<open>Inl\<close> of that text when it raises); \<open>RequestValidationError\<close> is the framework's
  rejection (status 422) of a query parameter outside its declared range.
\<close>

datatype exn =
    HTTPException int string
  | PyMongoError string
  | RequestValidationError

datatype call =
    ProductsInsertOne
  | ProductsCountDocuments
  | ProductsFind
  | ProductsFindOne oid
  | OrdersInsertOne
  | OrdersCountDocuments
  | OrdersFind

text \<open>
  The state of the store: the two collections, the next identifier it hands out, and two
  fields that make its behaviour observable. \<open>outages\<close> says, for each coming call in
  turn, whether the call raises (and with which text); calls beyond the list succeed.
  \<open>calls\<close> is the trace of the calls issued so far.
\<close>

record db =
  products_collection :: "ProductCreate stored list"
  orders_collection :: "order_doc stored list"
  next_oid :: oid
  outages :: "string option list"
  calls :: "call list"

definition store_call :: "call \<Rightarrow> db \<Rightarrow> string option \<times> db" where
  "store_call c s =
     (case outages s of
        [] \<Rightarrow> (None, s\<lparr>calls := calls s @ [c]\<rparr>)
      | f # fs \<Rightarrow> (f, s\<lparr>outages := fs, calls := calls s @ [c]\<rparr>))"

definition products_insert_one :: "ProductCreate \<Rightarrow> db \<Rightarrow> (string + oid) \<times> db" where
  "products_insert_one d s =
     (case store_call ProductsInsertOne s of
        (Some m, s') \<Rightarrow> (Inl m, s')
      | (None, s') \<Rightarrow>
          (Inr (next_oid s'),
           s'\<lparr>products_collection := products_collection s' @ [(next_oid s', d)],
               next_oid := next_oid s' + 1\<rparr>))"

definition products_find_one :: "oid \<Rightarrow> db \<Rightarrow> (string + ProductCreate stored option) \<times> db" where
  "products_find_one i s =
     (case store_call (ProductsFindOne i) s of
        (Some m, s') \<Rightarrow> (Inl m, s')
      | (None, s') \<Rightarrow> (Inr (find (\<lambda>d. fst d = i) (products_collection s')), s'))"

definition orders_insert_one :: "order_doc \<Rightarrow> db \<Rightarrow> (string + oid) \<times> db" where
  "orders_insert_one d s =
     (case store_call OrdersInsertOne s of
        (Some m, s') \<Rightarrow> (Inl m, s')
      | (None, s') \<Rightarrow>
          (Inr (next_oid s'),
           s'\<lparr>orders_collection := orders_collection s' @ [(next_oid s', d)],
               next_oid := next_oid s' + 1\<rparr>))"

section \<open>Queries\<close>

text \<open>
  A query filter is the dictionary the handler builds: keys in the order they are set, each
  with a plain value (equality) or with \<^verbatim>\<open>{"$regex": r, "$options": o}\<close>. A document
  matches when every entry holds for it.
\<close>

datatype cond = Equals string | Regex string string

type_synonym query = "(string \<times> cond) list"

subsection \<open>Regular expressions\<close>

text \<open>
  The store matches \<^verbatim>\<open>$regex\<close> with PCRE, unanchored, and option \<^verbatim>\<open>i\<close> makes the match
  caseless. The fragment modelled here is a sequence of literal ASCII characters and of
  dots (a dot matches any character but a line feed). A pattern with another metacharacter
  of PCRE, or with a character beyond ASCII, is outside the fragment: \<open>regex_compile\<close>
  answers \<open>None\<close> and nothing is said about it.
\<close>

datatype atom = Lit char | AnyChar

definition metachars :: string where
  "metachars = CHR 0x5C # ''^$.|?*+()[]{}''"

definition lower :: "char \<Rightarrow> char" where
  "lower c =
     (case map_of (zip ''ABCDEFGHIJKLMNOPQRSTUVWXYZ'' ''abcdefghijklmnopqrstuvwxyz'') c of
        Some d \<Rightarrow> d
      | None \<Rightarrow> c)"

fun regex_compile :: "string \<Rightarrow> atom list option" where
  "regex_compile [] = Some []"
| "regex_compile (c # cs) =
     (if c = CHR ''.'' then map_option (Cons AnyChar) (regex_compile cs)
      else if c \<in> set metachars \<or> \<not> (of_char c < (128::nat)) then None
      else map_option (Cons (Lit c)) (regex_compile cs))"

fun atom_matches :: "atom \<Rightarrow> char \<Rightarrow> bool" where
  "atom_matches (Lit c) d = (lower c = lower d)"
| "atom_matches AnyChar d = (d \<noteq> CHR 0x0A)"

fun match_here :: "atom list \<Rightarrow> string \<Rightarrow> bool" where
  "match_here [] ds = True"
| "match_here (a # as) [] = False"
| "match_here (a # as) (d # ds) = (atom_matches a d \<and> match_here as ds)"

fun regex_search :: "atom list \<Rightarrow> string \<Rightarrow> bool" where
  "regex_search r [] = match_here r []"
| "regex_search r (d # ds) = (match_here r (d # ds) \<or> regex_search r ds)"

subsection \<open>Matching a stored document\<close>

text \<open>
  On the products collection the handlers use two keys: \<^verbatim>\<open>name\<close>, with a caseless regular
  expression, and the dotted path \<^verbatim>\<open>sizes.size\<close>, which holds when some element of the
  array \<^verbatim>\<open>sizes\<close> has the field \<^verbatim>\<open>size\<close> equal to the value. On the orders collection
  they use \<^verbatim>\<open>userId\<close> with a plain value. \<open>None\<close> is a query outside what is modelled.
\<close>

definition product_clause :: "string \<times> cond \<Rightarrow> (ProductCreate stored \<Rightarrow> bool) option" where
  "product_clause kc =
     (case kc of
        (k, Regex r opts) \<Rightarrow>
          (if k = ''name'' \<and> opts = ''i''
           then map_option (\<lambda>a d. regex_search a (p_name (snd d))) (regex_compile r)
           else None)
      | (k, Equals v) \<Rightarrow>
          (if k = ''sizes.size''
           then Some (\<lambda>d. v \<in> set (map size_label (p_sizes (snd d))))
           else None))"

definition order_clause :: "string \<times> cond \<Rightarrow> (order_doc stored \<Rightarrow> bool) option" where
  "order_clause kc =
     (case kc of
        (k, Equals v) \<Rightarrow> (if k = ''userId'' then Some (\<lambda>d. o_userId (snd d) = v) else None)
      | (k, Regex r opts) \<Rightarrow> None)"

fun matcher :: "(string \<times> cond \<Rightarrow> ('d \<Rightarrow> bool) option) \<Rightarrow> query \<Rightarrow> ('d \<Rightarrow> bool) option" where
  "matcher cl [] = Some (\<lambda>d. True)"
| "matcher cl (kc # q) =
     (case cl kc of
        None \<Rightarrow> None
      | Some f \<Rightarrow> (case matcher cl q of None \<Rightarrow> None | Some g \<Rightarrow> Some (\<lambda>d. f d \<and> g d)))"

text \<open>
  \<^verbatim>\<open>count_documents(q)\<close>, and \<^verbatim>\<open>list(find(q).sort("_id", 1).skip(offset).limit(limit))\<close>;
  the handlers reach the second with \<open>offset \<ge> 0\<close> and \<open>limit \<ge> 1\<close> only.
\<close>

definition count_documents ::
  "call \<Rightarrow> ('d stored \<Rightarrow> bool) \<Rightarrow> 'd stored list \<Rightarrow> db \<Rightarrow> (string + int) \<times> db" where
  "count_documents c m docs s =
     (case store_call c s of
        (Some e, s') \<Rightarrow> (Inl e, s')
      | (None, s') \<Rightarrow> (Inr (int (length (filter m docs))), s'))"

definition find_sort_skip_limit ::
  "call \<Rightarrow> ('d stored \<Rightarrow> bool) \<Rightarrow> int \<Rightarrow> int \<Rightarrow> 'd stored list \<Rightarrow> db \<Rightarrow>
     (string + 'd stored list) \<times> db" where
  "find_sort_skip_limit c m offset limit docs s =
     (case store_call c s of
        (Some e, s') \<Rightarrow> (Inl e, s')
      | (None, s') \<Rightarrow>
          (Inr (take (nat limit) (drop (nat offset) (sort_key fst (filter m docs)))), s'))"

section \<open>The handlers\<close>

definition product_helper :: "ProductCreate stored \<Rightarrow> pyval" where
  "product_helper product =
     PDict [(''id'', PStr (str_oid (fst product))),
            (''name'', PStr (p_name (snd product))),
            (''price'', PFloat (p_price (snd product)))]"

definition item_dict :: "OrderItemDetails \<Rightarrow> pyval" where
  "item_dict i =
     PDict [(''productDetails'',
               PDict [(''name'', PStr (pd_name (productDetails i))),
                      (''id'', PStr (pd_id (productDetails i)))]),
            (''qty'', PInt (od_qty i))]"

definition order_helper :: "order_doc stored \<Rightarrow> pyval" where
  "order_helper order =
     PDict [(''id'', PStr (str_oid (fst order))),
            (''items'', PList (map item_dict (o_items (snd order)))),
            (''total'', PFloat (o_total (snd order)))]"

text \<open>\<^verbatim>\<open>Query(dflt, ge=lo)\<close> on an integer parameter that may be absent.\<close>

definition Query_ge :: "int \<Rightarrow> int \<Rightarrow> int option \<Rightarrow> exn + int" where
  "Query_ge dflt lo v =
     (case v of
        None \<Rightarrow> Inr dflt
      | Some i \<Rightarrow> (if lo \<le> i then Inr i else Inl RequestValidationError))"

subsection \<open>\<^verbatim>\<open>POST /products\<close> (lines 107-123)\<close>

definition create_product :: "ProductCreate \<Rightarrow> db \<Rightarrow> (exn + int \<times> pyval) \<times> db" where
  "create_product product s =
     (case products_insert_one product s of
        (Inl m, s1) \<Rightarrow> (Inl (HTTPException 500 m), s1)
      | (Inr inserted_id, s1) \<Rightarrow> (Inr (201, PDict [(''id'', PStr (str_oid inserted_id))]), s1))"

subsection \<open>\<^verbatim>\<open>GET /products\<close> (lines 125-174)\<close>

text \<open>\<^verbatim>\<open>if name:\<close> on an optional string: absent and empty are both false.\<close>

fun truthy :: "string option \<Rightarrow> bool" where
  "truthy None = False"
| "truthy (Some v) = (v \<noteq> [])"

definition build_query :: "string option \<Rightarrow> string option \<Rightarrow> query" where
  "build_query name size' =
     (let query_filter0 = [];
          query_filter1 =
            (case name of
               Some n \<Rightarrow>
                 (if truthy name then query_filter0 @ [(''name'', Regex n ''i'')]
                  else query_filter0)
             | None \<Rightarrow> query_filter0);
          query_filter2 =
            (case size' of
               Some v \<Rightarrow>
                 (if truthy size' then query_filter1 @ [(''sizes.size'', Equals v)]
                  else query_filter1)
             | None \<Rightarrow> query_filter1)
      in query_filter2)"

text \<open>
  The handler. Its answer is \<open>None\<close> when the \<^verbatim>\<open>name\<close> pattern is outside the modelled
  fragment of regular expressions; otherwise it is the response (or the exception) together
  with the state of the store after the two calls.
\<close>

definition list_products ::
  "string option \<Rightarrow> string option \<Rightarrow> int option \<Rightarrow> int option \<Rightarrow> db \<Rightarrow>
     ((exn + int \<times> pyval) \<times> db) option" where
  "list_products name size' limit_q offset_q s =
     (case Query_ge 10 1 limit_q of
        Inl e \<Rightarrow> Some (Inl e, s)
      | Inr limit \<Rightarrow>
     (case Query_ge 0 0 offset_q of
        Inl e \<Rightarrow> Some (Inl e, s)
      | Inr offset \<Rightarrow>
     (case matcher product_clause (build_query name size') of
        None \<Rightarrow> None
      | Some m \<Rightarrow>
     Some
     (case count_documents ProductsCountDocuments m (products_collection s) s of
        (Inl e, s1) \<Rightarrow> (Inl (HTTPException 500 e), s1)
      | (Inr total_count, s1) \<Rightarrow>
     (case find_sort_skip_limit ProductsFind m offset limit (products_collection s1) s1 of
        (Inl e, s2) \<Rightarrow> (Inl (HTTPException 500 e), s2)
      | (Inr products, s2) \<Rightarrow>
          (Inr (200, PDict [(''data'', PList (map product_helper products)),
                            (''page'', pagination limit offset total_count)]),
           s2))))))"

subsection \<open>\<^verbatim>\<open>POST /orders\<close> (lines 178-230)\<close>

text \<open>
  The loop of lines 188-211, with its two accumulators. The bare \<^verbatim>\<open>except\<close> around
  \<^verbatim>\<open>ObjectId\<close> turns its failure into status 400; a lookup that finds nothing raises
  status 404; a lookup that raises leaves the loop with that exception.
\<close>

fun create_order_loop ::
  "OrderItem list \<Rightarrow> real \<Rightarrow> OrderItemDetails list \<Rightarrow> db \<Rightarrow>
     (exn + real \<times> OrderItemDetails list) \<times> db" where
  "create_order_loop [] total_price order_items s = (Inr (total_price, order_items), s)"
| "create_order_loop (item # rest) total_price order_items s =
     (case ObjectId (productId item) of
        None \<Rightarrow> (Inl (HTTPException 400 (''Invalid product ID: '' @ productId item)), s)
      | Some product_id \<Rightarrow>
          (case products_find_one product_id s of
             (Inl m, s1) \<Rightarrow> (Inl (PyMongoError m), s1)
           | (Inr None, s1) \<Rightarrow>
               (Inl (HTTPException 404 (''Product not found: '' @ productId item)), s1)
           | (Inr (Some product), s1) \<Rightarrow>
               create_order_loop rest
                 (total_price + p_price (snd product) * of_int (qty item))
                 (order_items @
                    [\<lparr>productDetails =
                        \<lparr>pd_name = p_name (snd product), pd_id = productId item\<rparr>,
                      od_qty = qty item\<rparr>])
                 s1))"

text \<open>
  The handler: \<^verbatim>\<open>except HTTPException: raise\<close> lets the loop's own errors through, and
  \<^verbatim>\<open>except Exception as e\<close> reports any other exception as status 500 with its text. The
  second argument is the clock's reading, \<^verbatim>\<open>datetime.now(timezone.utc)\<close>.
\<close>

definition create_order :: "OrderCreate \<Rightarrow> nat \<Rightarrow> db \<Rightarrow> (exn + int \<times> pyval) \<times> db" where
  "create_order order now s =
     (case create_order_loop (items order) 0 [] s of
        (Inl (PyMongoError m), s1) \<Rightarrow> (Inl (HTTPException 500 m), s1)
      | (Inl e, s1) \<Rightarrow> (Inl e, s1)
      | (Inr (total_price, order_items), s1) \<Rightarrow>
          (case orders_insert_one
                  \<lparr>o_userId = userId order, o_items = order_items, o_total = total_price,
                    o_createdAt = now\<rparr> s1 of
             (Inl m, s2) \<Rightarrow> (Inl (HTTPException 500 m), s2)
           | (Inr inserted_id, s2) \<Rightarrow>
               (Inr (201, PDict [(''id'', PStr (str_oid inserted_id))]), s2)))"

subsection \<open>\<^verbatim>\<open>GET /orders/{user_id}\<close> (lines 232-272)\<close>

definition get_user_orders ::
  "string \<Rightarrow> int option \<Rightarrow> int option \<Rightarrow> db \<Rightarrow> ((exn + int \<times> pyval) \<times> db) option" where
  "get_user_orders user_id limit_q offset_q s =
     (case Query_ge 10 1 limit_q of
        Inl e \<Rightarrow> Some (Inl e, s)
      | Inr limit \<Rightarrow>
     (case Query_ge 0 0 offset_q of
        Inl e \<Rightarrow> Some (Inl e, s)
      | Inr offset \<Rightarrow>
     (case matcher order_clause [(''userId'', Equals user_id)] of
        None \<Rightarrow> None
      | Some m \<Rightarrow>
     Some
     (case count_documents OrdersCountDocuments m (orders_collection s) s of
        (Inl e, s1) \<Rightarrow> (Inl (HTTPException 500 e), s1)
      | (Inr total_count, s1) \<Rightarrow>
     (case find_sort_skip_limit OrdersFind m offset limit (orders_collection s1) s1 of
        (Inl e, s2) \<Rightarrow> (Inl (HTTPException 500 e), s2)
      | (Inr orders, s2) \<Rightarrow>
          (Inr (200, PDict [(''data'', PList (map order_helper orders)),
                            (''page'', pagination limit offset total_count)]),
           s2))))))"

section \<open>Notions used to state the properties\<close>

text \<open>The next \<open>n\<close> calls of the store do not raise.\<close>

definition answers :: "nat \<Rightarrow> db \<Rightarrow> bool" where
  "answers n s = (set (take n (outages s)) \<subseteq> {None})"

text \<open>
  Whether \<^verbatim>\<open>GET /products\<close> with the given \<^verbatim>\<open>name\<close> and \<^verbatim>\<open>size\<close> selects a stored
  product: the filter the handler builds, evaluated by the store.
\<close>

definition selects :: "string option \<Rightarrow> string option \<Rightarrow> ProductCreate stored \<Rightarrow> bool option" where
  "selects name size' d = map_option (\<lambda>m. m d) (matcher product_clause (build_query name size'))"



text \<open>
  An item of an order request resolves in a store when its \<^verbatim>\<open>productId\<close> is an identifier
  and a product with that identifier is stored.
\<close>

definition resolves :: "db \<Rightarrow> OrderItem \<Rightarrow> bool" where
  "resolves s item =
     (case ObjectId (productId item) of
        None \<Rightarrow> False
      | Some i \<Rightarrow> find (\<lambda>d. fst d = i) (products_collection s) \<noteq> None)"

subsection \<open>The data of the specification's scenarios\<close>

definition tee :: ProductCreate where
  "tee = \<lparr>p_name = ''Tee'', p_price = 20, p_sizes = [\<lparr>size_label = ''M'', quantity = 5\<rparr>]\<rparr>"

definition blue_shirt :: ProductCreate where
  "blue_shirt = \<lparr>p_name = ''Blue Shirt'', p_price = 15, p_sizes = []\<rparr>"

definition store1 :: db where
  "store1 = \<lparr>products_collection = [(1, tee)], orders_collection = [], next_oid = 2,
              outages = [], calls = []\<rparr>"

definition store3 :: db where
  "store3 = \<lparr>products_collection = [(1, tee), (2, blue_shirt), (3, tee)],
              orders_collection = [], next_oid = 4, outages = [], calls = []\<rparr>"

definition order_of :: "OrderItem list \<Rightarrow> OrderCreate" where
  "order_of its = \<lparr>userId = ''u1'', items = its\<rparr>"

definition P1 :: string where
  "P1 = ''000000000000000000000001''"

definition P2 :: string where
  "P2 = ''000000000000000000000002''"

definition order_u :: "string \<Rightarrow> order_doc" where
  "order_u u =
     \<lparr>o_userId = u,
      o_items = [\<lparr>productDetails = \<lparr>pd_name = ''Tee'', pd_id = P1\<rparr>, od_qty = 2\<rparr>],
      o_total = 40, o_createdAt = 7\<rparr>"

definition store_orders :: db where
  "store_orders = \<lparr>products_collection = [(1, tee)],
      orders_collection = [(2, order_u ''u1''), (3, order_u ''u2''), (4, order_u ''u1'')],
      next_oid = 5, outages = [], calls = []\<rparr>"

section \<open>Evaluation\<close>

lemmas eval_defs =
  tee_def blue_shirt_def store1_def store3_def order_of_def P1_def P2_def order_u_def
  store_orders_def
  create_product_def products_insert_one_def store_call_def str_oid_def hex_char_def upt_rec
  create_order_def ObjectId_def hex_val_def products_find_one_def orders_insert_one_def
  list_products_def Query_ge_def build_query_def product_clause_def count_documents_def
  find_sort_skip_limit_def product_helper_def pagination_def str_int_def str_nat.simps
  digit_char_def metachars_def lower_def get_user_orders_def order_clause_def order_helper_def
  item_dict_def answers_def selects_def

section \<open>The decimal text of an offset reads back as the offset\<close>








section \<open>The store calls\<close>

lemma store_call_frame:
  "store_call c s = (f, s') \<Longrightarrow>
     calls s' = calls s @ [c] \<and> products_collection s' = products_collection s \<and>
     orders_collection s' = orders_collection s \<and> next_oid s' = next_oid s \<and>
     outages s' = tl (outages s)"
  by (auto simp: store_call_def split: list.splits)


section \<open>Pagination\<close>








section \<open>The filter of the product list\<close>

lemma build_query_empty_name: "build_query (Some []) size' = build_query None size'"
  by (simp add: build_query_def)

lemma build_query_empty_size: "build_query name (Some []) = build_query name None"
  by (simp add: build_query_def)

lemma build_query_keys:
  "''name'' \<notin> set (map fst (build_query None size')) \<and>
   ''sizes.size'' \<notin> set (map fst (build_query name None))"
  by (auto simp: build_query_def split: option.splits)

text \<open>
  C10. A \<^verbatim>\<open>name\<close> or \<^verbatim>\<open>size\<close> parameter given as the empty string is treated as an absent
  one: the handler builds the same filter, without the key of that parameter, so that every
  product passes that clause, and the endpoint answers as it does without the parameter.
\<close>

theorem empty_parameter_is_absent:
  "build_query (Some []) size' = build_query None size' \<and>
   build_query name (Some []) = build_query name None \<and>
   ''name'' \<notin> set (map fst (build_query (Some []) size')) \<and>
   ''sizes.size'' \<notin> set (map fst (build_query name (Some []))) \<and>
   selects (Some []) None d = Some True \<and>
   selects None (Some []) d = Some True \<and>
   list_products (Some []) size' limit_q offset_q s = list_products None size' limit_q offset_q s \<and>
   list_products name (Some []) limit_q offset_q s = list_products name None limit_q offset_q s"
proof -
  have "selects (Some []) None d = Some True" "selects None (Some []) d = Some True"
    by (simp_all add: selects_def build_query_def)
  moreover have "list_products (Some []) size' limit_q offset_q s =
      list_products None size' limit_q offset_q s"
    unfolding list_products_def build_query_empty_name ..
  moreover have "list_products name (Some []) limit_q offset_q s =
      list_products name None limit_q offset_q s"
    unfolding list_products_def build_query_empty_size ..
  ultimately show ?thesis
    using build_query_keys [of size' name]
    by (simp add: build_query_empty_name build_query_empty_size)
qed

section \<open>The items of a product list\<close>

lemma product_helper_fields:
  "keys (product_helper d) = [''id'', ''name'', ''price''] \<and>
   getitem (product_helper d) ''sizes'' = None"
  by (simp add: product_helper_def)

lemma list_products_data:
  assumes "list_products name size' limit_q offset_q s = Some (Inr (st, body), s')"
  shows "\<exists>docs. set docs \<subseteq> set (products_collection s) \<and>
      getitem body ''data'' = Some (PList (map product_helper docs))"
proof -
  have sub: "set (take k (drop j (sort_key fst (filter m xs)))) \<subseteq> set xs" for k j m and xs :: "ProductCreate stored list"
  proof -
    have "set (take k (drop j (sort_key fst (filter m xs)))) \<subseteq> set (sort_key fst (filter m xs))"
      by (meson set_take_subset set_drop_subset subset_trans)
    then show ?thesis by auto
  qed
  obtain limit offset m s1 s2 where
    m: "count_documents ProductsCountDocuments m (products_collection s) s = (Inr (int (length (filter m (products_collection s)))), s1)"
    and f: "find_sort_skip_limit ProductsFind m offset limit (products_collection s1) s1 =
       (Inr (take (nat limit) (drop (nat offset) (sort_key fst (filter m (products_collection s1))))), s2)"
    and b: "body = PDict [(''data'', PList (map product_helper (take (nat limit) (drop (nat offset) (sort_key fst (filter m (products_collection s1))))))),
                          (''page'', pagination limit offset (int (length (filter m (products_collection s)))))]"
    using assms
    by (auto simp: list_products_def count_documents_def find_sort_skip_limit_def
        split: option.splits sum.splits prod.splits)
  have "products_collection s1 = products_collection s"
    using m by (auto simp: count_documents_def split: prod.splits option.splits dest: store_call_frame)
  with b sub [of "nat limit" "nat offset" m "products_collection s"] show ?thesis
    by (intro exI [of _ "take (nat limit) (drop (nat offset)
          (sort_key fst (filter m (products_collection s))))"]) simp
qed

text \<open>
  C8. Every item of a product-list response is a dictionary with exactly the keys
  \<^verbatim>\<open>id\<close>, \<^verbatim>\<open>name\<close>, \<^verbatim>\<open>price\<close>, in this order; it has no \<^verbatim>\<open>sizes\<close>, whatever sizes
  the stored product has.
\<close>

theorem product_list_item_fields:
  "keys (product_helper d) = [''id'', ''name'', ''price''] \<and>
   getitem (product_helper d) ''sizes'' = None \<and>
   (list_products name size' limit_q offset_q s = Some (Inr (st, body), s') \<longrightarrow>
      (\<exists>its. getitem body ''data'' = Some (PList its) \<and>
         (\<forall>it \<in> set its. keys it = [''id'', ''name'', ''price''] \<and> getitem it ''sizes'' = None)))"
  using product_helper_fields list_products_data [of name size' limit_q offset_q s st body s']
  by fastforce

theorem product_list_item_fields_witness:
  "keys (product_helper (1, tee)) = [''id'', ''name'', ''price''] \<and>
   getitem (product_helper (1, tee)) ''sizes'' = None \<and>
   (\<exists>its. getitem (PDict [(''data'', PList [product_helper (1, tee), product_helper (2, blue_shirt), product_helper (3, tee)]),
                          (''page'', pagination 10 0 3)]) ''data'' = Some (PList its) \<and>
         (\<forall>it \<in> set its. keys it = [''id'', ''name'', ''price''] \<and> getitem it ''sizes'' = None))"
proof -
  have h: "list_products None None None None store3 =
      Some (Inr (200, PDict [(''data'', PList [product_helper (1, tee), product_helper (2, blue_shirt), product_helper (3, tee)]),
                             (''page'', pagination 10 0 3)]),
            store3\<lparr>calls := [ProductsCountDocuments, ProductsFind]\<rparr>)"
    by (simp add: eval_defs)
  show ?thesis
    using product_list_item_fields [of "(1, tee)" None None None None store3 200 _ _] h
    by blast
qed

section \<open>Creating an order\<close>

text \<open>
  C9. An order request with an empty list of items, on a store whose next call does not
  raise, succeeds: the only call issued is the insert (no product is looked up), exactly one
  order is added, with no items and total 0, and the response is status 201 with the
  identifier of the new order.
\<close>

theorem empty_order_is_created:
  assumes "items order = []" and "answers 1 s"
  shows "create_order order now s =
    (Inr (201, PDict [(''id'', PStr (str_oid (next_oid s)))]),
     s\<lparr>orders_collection := orders_collection s @
          [(next_oid s, \<lparr>o_userId = userId order, o_items = [], o_total = 0, o_createdAt = now\<rparr>)],
       next_oid := next_oid s + 1,
       outages := tl (outages s),
       calls := calls s @ [OrdersInsertOne]\<rparr>)"
  using assms
  by (cases "outages s")
    (auto simp: create_order_def orders_insert_one_def store_call_def answers_def)

theorem empty_order_is_created_witness:
  "create_order (order_of []) 7 store1 =
    (Inr (201, PDict [(''id'', PStr ''000000000000000000000002'')]),
     \<lparr>products_collection = [(1, tee)],
      orders_collection = [(2, \<lparr>o_userId = ''u1'', o_items = [], o_total = 0, o_createdAt = 7\<rparr>)],
      next_oid = 3, outages = [], calls = [OrdersInsertOne]\<rparr>)"
proof -
  have a: "items (order_of []) = []" by (simp add: order_of_def)
  have b: "answers 1 store1" by (simp add: answers_def store1_def)
  show ?thesis
    using empty_order_is_created [OF a b, of 7]
    by (simp add: eval_defs)
qed

section \<open>The name and size filters\<close>





lemma selects_name_only:
  "v \<noteq> [] \<Longrightarrow> selects (Some v) None d =
     map_option (\<lambda>a. regex_search a (p_name (snd d))) (regex_compile v)"
  by (cases "regex_compile v") (simp_all add: selects_def build_query_def product_clause_def)

lemma selects_size_only:
  "v \<noteq> [] \<Longrightarrow> \<not> truthy name \<Longrightarrow>
     selects name (Some v) d = Some (v \<in> set (map size_label (p_sizes (snd d))))"
  by (cases name) (simp_all add: selects_def build_query_def product_clause_def)

lemma selects_both:
  "n \<noteq> [] \<Longrightarrow> v \<noteq> [] \<Longrightarrow>
     selects (Some n) (Some v) d =
       map_option (\<lambda>a. regex_search a (p_name (snd d)) \<and> v \<in> set (map size_label (p_sizes (snd d))))
         (regex_compile n)"
  by (cases "regex_compile n") (simp_all add: selects_def build_query_def product_clause_def)

lemma selects_neither: "\<not> truthy name \<Longrightarrow> \<not> truthy size' \<Longrightarrow> selects name size' d = Some True"
  by (cases name; cases size') (simp_all add: selects_def build_query_def)

text \<open>
  C7. When the size filter is given (a non-empty \<^verbatim>\<open>size\<close>) and the name filter is not, a
  stored product is selected exactly when some entry of its \<^verbatim>\<open>sizes\<close> has a label equal to
  the query's string. When both are given, the product is selected exactly when each of the
  two filters alone selects it. When neither is given, every product is selected.
\<close>

theorem size_filter:
  "(truthy (Some v) \<and> \<not> truthy name \<longrightarrow>
      selects name (Some v) d = Some (\<exists>e \<in> set (p_sizes (snd d)). size_label e = v)) \<and>
   (truthy (Some n) \<and> truthy (Some v) \<longrightarrow>
      selects (Some n) (Some v) d =
        (case (selects (Some n) None d, selects None (Some v) d) of
           (Some a, Some b) \<Rightarrow> Some (a \<and> b)
         | _ \<Rightarrow> None)) \<and>
   (\<not> truthy name \<and> \<not> truthy size' \<longrightarrow> selects name size' d = Some True)"
proof (intro conjI impI)
  assume "truthy (Some v) \<and> \<not> truthy name"
  then have "selects name (Some v) d = Some (v \<in> set (map size_label (p_sizes (snd d))))"
    by (simp add: selects_size_only)
  moreover have "v \<in> set (map size_label (p_sizes (snd d))) \<longleftrightarrow>
      (\<exists>e \<in> set (p_sizes (snd d)). size_label e = v)"
    by auto
  ultimately show "selects name (Some v) d = Some (\<exists>e \<in> set (p_sizes (snd d)). size_label e = v)"
    by simp
next
  assume "truthy (Some n) \<and> truthy (Some v)"
  then have nv: "n \<noteq> []" "v \<noteq> []" by simp_all
  show "selects (Some n) (Some v) d =
        (case (selects (Some n) None d, selects None (Some v) d) of
           (Some a, Some b) \<Rightarrow> Some (a \<and> b)
         | _ \<Rightarrow> None)"
    using nv
    by (cases "regex_compile n")
      (simp_all add: selects_both selects_name_only selects_size_only [of v None])
next
  assume "\<not> truthy name \<and> \<not> truthy size'"
  then show "selects name size' d = Some True"
    by (simp add: selects_neither)
qed

theorem size_filter_witness:
  "selects None (Some ''M'') (1, tee) = Some True \<and>
   selects (Some []) (Some ''m'') (1, tee) = Some False \<and>
   selects (Some ''te'') (Some ''M'') (1, tee) = Some True \<and>
   selects (Some ''te'') (Some ''L'') (1, tee) = Some False \<and>
   selects None (Some []) (1, tee) = Some True"
  using size_filter [of "''M''" None "(1, tee)" "''te''" "Some []"]
    size_filter [of "''m''" "Some []" "(1, tee)" "''te''" None]
    size_filter [of "''L''" None "(1, tee)" "''te''" None]
    selects_name_only [of "''te''" "(1, tee)"]
  by (simp add: tee_def metachars_def lower_def)




section \<open>What the product list returns\<close>

lemma list_products_selected:
  assumes "list_products name size' (Some limit) (Some offset) s = Some (Inr (st, body), s')"
  shows "getitem body ''data'' =
    Some (PList (map product_helper
      (take (nat limit) (drop (nat offset)
        (sort_key fst (filter (\<lambda>d. selects name size' d = Some True) (products_collection s)))))))"
proof -
  obtain m s1 s2 where
    m: "matcher product_clause (build_query name size') = Some m"
    and c: "count_documents ProductsCountDocuments m (products_collection s) s =
       (Inr (int (length (filter m (products_collection s)))), s1)"
    and b: "body = PDict [(''data'', PList (map product_helper (take (nat limit) (drop (nat offset)
                (sort_key fst (filter m (products_collection s1))))))),
              (''page'', pagination limit offset (int (length (filter m (products_collection s)))))]"
    using assms
    by (auto simp: list_products_def Query_ge_def count_documents_def find_sort_skip_limit_def
        split: if_splits option.splits sum.splits prod.splits)
  have "products_collection s1 = products_collection s"
    using c by (auto simp: count_documents_def split: prod.splits option.splits dest: store_call_frame)
  moreover have "(\<lambda>d. selects name size' d = Some True) = m"
    using m by (simp add: selects_def)
  ultimately show ?thesis using b by simp
qed

section \<open>The loop over the items of an order\<close>

lemma products_find_one_frame:
  assumes "products_find_one i s = (x, s1)"
  shows "calls s1 = calls s @ [ProductsFindOne i] \<and>
    products_collection s1 = products_collection s \<and>
    orders_collection s1 = orders_collection s \<and> next_oid s1 = next_oid s \<and>
    outages s1 = tl (outages s) \<and>
    (x = Inr (find (\<lambda>d. fst d = i) (products_collection s)) \<and>
       (outages s = [] \<or> hd (outages s) = None) \<or>
     (\<exists>m. x = Inl m \<and> outages s \<noteq> [] \<and> hd (outages s) = Some m))"
  using assms
  by (auto simp: products_find_one_def store_call_def split: list.splits option.splits)

lemma resolves_frame:
  "products_collection s1 = products_collection s \<Longrightarrow> resolves s1 item = resolves s item"
  by (simp add: resolves_def split: option.splits)

lemma loop_trace:
  "create_order_loop its tp acc s = (r, s') \<Longrightarrow>
     products_collection s' = products_collection s \<and>
     orders_collection s' = orders_collection s \<and> next_oid s' = next_oid s \<and>
     (\<exists>ids. calls s' = calls s @ map ProductsFindOne ids \<and>
        outages s' = drop (length ids) (outages s) \<and>
        prefix (map Some ids) (map (ObjectId \<circ> productId) its) \<and>
        (\<not> isl r \<longrightarrow> length ids = length its) \<and>
        (\<forall>k < length its. \<not> resolves s (its ! k) \<longrightarrow> isl r \<and> length ids \<le> Suc k))"
proof (induction its arbitrary: tp acc s)
  case Nil
  then show ?case by auto
next
  case (Cons item rest)
  show ?case
  proof (cases "ObjectId (productId item)")
    case None
    with Cons.prems have "r = Inl (HTTPException 400 (''Invalid product ID: '' @ productId item))"
      and "s' = s" by simp_all
    then show ?thesis by (auto intro: exI [of _ "[]"])
  next
    case (Some i)
    obtain x s1 where f: "products_find_one i s = (x, s1)" by (cases "products_find_one i s")
    note fr = products_find_one_frame [OF f]
    have one: "calls s1 = calls s @ map ProductsFindOne [i]"
      "prefix (map Some [i]) (map (ObjectId \<circ> productId) (item # rest))"
      "outages s1 = drop (length [i]) (outages s)"
      using fr Some by (simp_all add: drop_Suc)
    show ?thesis
    proof (cases x)
      case (Inl m)
      with Cons.prems Some f have "r = Inl (PyMongoError m)" "s' = s1" by simp_all
      with fr one show ?thesis
        by (intro conjI exI [of _ "[i]"]) auto
    next
      case (Inr found)
      show ?thesis
      proof (cases found)
        case None
        with Cons.prems Some f Inr
        have "r = Inl (HTTPException 404 (''Product not found: '' @ productId item))" "s' = s1"
          by simp_all
        with fr one show ?thesis
          by (intro conjI exI [of _ "[i]"]) auto
      next
        case (Some product)
        with Cons.prems \<open>ObjectId (productId item) = Some i\<close> f Inr
        have rec: "create_order_loop rest
            (tp + p_price (snd product) * of_int (qty item))
            (acc @ [\<lparr>productDetails =
                        \<lparr>pd_name = p_name (snd product), pd_id = productId item\<rparr>,
                      od_qty = qty item\<rparr>]) s1 = (r, s')"
          by simp
        from Cons.IH [OF rec] obtain ids where ih:
          "products_collection s' = products_collection s1"
          "orders_collection s' = orders_collection s1" "next_oid s' = next_oid s1"
          "calls s' = calls s1 @ map ProductsFindOne ids"
          "outages s' = drop (length ids) (outages s1)"
          "prefix (map Some ids) (map (ObjectId \<circ> productId) rest)"
          "\<not> isl r \<longrightarrow> length ids = length rest"
          "\<forall>k < length rest. \<not> resolves s1 (rest ! k) \<longrightarrow> isl r \<and> length ids \<le> Suc k"
          by blast
        have "find (\<lambda>d. fst d = i) (products_collection s) = Some product"
          using fr Inr Some by auto
        then have res: "resolves s item"
          using \<open>ObjectId (productId item) = Some i\<close> by (simp add: resolves_def)
        have bad: "\<forall>k < length (item # rest). \<not> resolves s ((item # rest) ! k) \<longrightarrow>
            isl r \<and> length (i # ids) \<le> Suc k"
        proof (intro allI impI)
          fix k assume k: "k < length (item # rest)" "\<not> resolves s ((item # rest) ! k)"
          with res obtain j where j: "k = Suc j" by (cases k) auto
          with k have "j < length rest" "\<not> resolves s1 (rest ! j)"
            using fr by (simp_all add: resolves_frame [of s1 s])
          with ih(8) j show "isl r \<and> length (i # ids) \<le> Suc k" by auto
        qed
        have c: "calls s' = calls s @ map ProductsFindOne (i # ids)"
          using ih(4) fr by simp
        have d: "outages s' = drop (length (i # ids)) (outages s)"
          using ih(5) fr by (simp add: drop_Suc)
        have e: "prefix (map Some (i # ids)) (map (ObjectId \<circ> productId) (item # rest))"
          using ih(6) \<open>ObjectId (productId item) = Some i\<close> by simp
        have g: "\<not> isl r \<longrightarrow> length (i # ids) = length (item # rest)"
          using ih(7) by simp
        have h: "products_collection s' = products_collection s"
          "orders_collection s' = orders_collection s" "next_oid s' = next_oid s"
          using ih(1,2,3) fr by simp_all
        show ?thesis
          using h c d e g bad by blast
      qed
    qed
  qed
qed


lemma orders_insert_one_frame:
  assumes "orders_insert_one d s = (x, s1)"
  shows "calls s1 = calls s @ [OrdersInsertOne] \<and>
    products_collection s1 = products_collection s \<and>
    (x = Inr (next_oid s) \<and> orders_collection s1 = orders_collection s @ [(next_oid s, d)] \<and>
       (outages s = [] \<or> hd (outages s) = None) \<or>
     (\<exists>m. x = Inl m \<and> orders_collection s1 = orders_collection s \<and>
        outages s \<noteq> [] \<and> hd (outages s) = Some m))"
  using assms
  by (auto simp: orders_insert_one_def store_call_def split: list.splits option.splits)

lemma create_order_failed_loop:
  assumes "create_order_loop (items order) 0 [] s = (Inl e, s1)"
  shows "\<exists>e'. create_order order now s = (Inl e', s1)"
  using assms by (cases e) (simp_all add: create_order_def)











lemma loop_total_nonneg:
  assumes "\<forall>d \<in> set (products_collection s). 0 \<le> p_price (snd d)"
    and "\<forall>it \<in> set its. 0 \<le> qty it" and "0 \<le> tp"
    and "create_order_loop its tp acc s = (Inr (t, li), s')"
  shows "0 \<le> t"
  using assms
proof (induction its arbitrary: tp acc s)
  case Nil
  then show ?case by simp
next
  case (Cons item rest)
  from Cons.prems(4) obtain i where i: "ObjectId (productId item) = Some i"
    by (cases "ObjectId (productId item)") auto
  obtain x s1 where f: "products_find_one i s = (x, s1)" by (cases "products_find_one i s")
  note fr = products_find_one_frame [OF f]
  from Cons.prems(4) i f obtain product where
    x: "x = Inr (Some product)"
    and rec: "create_order_loop rest (tp + p_price (snd product) * of_int (qty item))
            (acc @ [\<lparr>productDetails =
                        \<lparr>pd_name = p_name (snd product), pd_id = productId item\<rparr>,
                      od_qty = qty item\<rparr>]) s1 = (Inr (t, li), s')"
    by (auto split: sum.splits option.splits)
  from fr x have "find (\<lambda>d. fst d = i) (products_collection s) = Some product" by auto
  then have "product \<in> set (products_collection s)"
    by (auto simp: find_Some_iff)
  with Cons.prems(1) have "0 \<le> p_price (snd product)" by blast
  moreover from Cons.prems(2) have "0 \<le> qty item" by simp
  ultimately have "0 \<le> tp + p_price (snd product) * of_int (qty item)"
    using Cons.prems(3) by simp
  moreover have "\<forall>d \<in> set (products_collection s1). 0 \<le> p_price (snd d)"
    using Cons.prems(1) fr by simp
  moreover have "\<forall>it \<in> set rest. 0 \<le> qty it" using Cons.prems(2) by simp
  ultimately show ?case using Cons.IH rec by blast
qed








lemma create_order_success:
  assumes "create_order order now s = (Inr resp, s')"
  shows "\<exists>t li s1 i. create_order_loop (items order) 0 [] s = (Inr (t, li), s1) \<and>
    orders_collection s' = orders_collection s @
      [(i, \<lparr>o_userId = userId order, o_items = li, o_total = t, o_createdAt = now\<rparr>)]"
proof -
  obtain x s1 where l: "create_order_loop (items order) 0 [] s = (x, s1)"
    by (cases "create_order_loop (items order) 0 [] s")
  show ?thesis
  proof (cases x)
    case (Inl e)
    with l assms show ?thesis
      using create_order_failed_loop [of order s e s1 now] by auto
  next
    case (Inr res)
    obtain t li where res: "res = (t, li)" by (cases res)
    let ?doc = "\<lparr>o_userId = userId order, o_items = li, o_total = t, o_createdAt = now\<rparr>"
    obtain y s2 where i: "orders_insert_one ?doc s1 = (y, s2)"
      by (cases "orders_insert_one ?doc s1")
    from assms l Inr res i obtain new_id where y: "y = Inr new_id" "s' = s2"
      by (cases y) (simp_all add: create_order_def)
    from orders_insert_one_frame [OF i] y
    have "orders_collection s2 = orders_collection s1 @ [(next_oid s1, ?doc)]" by auto
    moreover from loop_trace [OF l] have "orders_collection s1 = orders_collection s" by blast
    ultimately show ?thesis using l Inr res y by auto
  qed
qed

text \<open>
  C6. The request classes check types only, so a negative \<^verbatim>\<open>qty\<close> or \<^verbatim>\<open>price\<close> reaches
  the handler. When every stored product has a price of at least 0 and every item of the
  request has a \<^verbatim>\<open>qty\<close> of at least 0, a successful order creation stores an order whose
  total is at least 0.
\<close>

theorem order_total_nonneg:
  assumes "\<forall>d \<in> set (products_collection s). 0 \<le> p_price (snd d)"
    and "\<forall>it \<in> set (items order). 0 \<le> qty it"
    and "create_order order now s = (Inr resp, s')"
  shows "\<exists>i doc. orders_collection s' = orders_collection s @ [(i, doc)] \<and> 0 \<le> o_total doc"
proof -
  from create_order_success [OF assms(3)] obtain t li s1 i where
    l: "create_order_loop (items order) 0 [] s = (Inr (t, li), s1)"
    and o: "orders_collection s' = orders_collection s @
      [(i, \<lparr>o_userId = userId order, o_items = li, o_total = t, o_createdAt = now\<rparr>)]"
    by blast
  have "0 \<le> t"
    using loop_total_nonneg [OF assms(1,2) _ l] by simp
  with o show ?thesis by auto
qed

theorem order_total_nonneg_witness:
  "orders_collection (snd (create_order (order_of [\<lparr>productId = P1, qty = 2\<rparr>]) 7 store1)) =
     [(2, order_u ''u1'')] \<and> (0::real) \<le> o_total (order_u ''u1'')"
proof -
  have a: "create_order (order_of [\<lparr>productId = P1, qty = 2\<rparr>]) 7 store1 =
     (Inr (201, PDict [(''id'', PStr P2)]),
      store1\<lparr>orders_collection := [(2, order_u ''u1'')], next_oid := 3,
             calls := [ProductsFindOne 1, OrdersInsertOne]\<rparr>)"
    by (simp add: eval_defs)
  have p: "\<forall>d \<in> set (products_collection store1). 0 \<le> p_price (snd d)"
    by (simp add: store1_def tee_def)
  have q: "\<forall>it \<in> set (items (order_of [\<lparr>productId = P1, qty = 2\<rparr>])). 0 \<le> qty it"
    by (simp add: order_of_def)
  show ?thesis
    using order_total_nonneg [OF p q a] a
    by (simp add: store1_def order_u_def)
qed

theorem order_total_counterexample:
  "create_order (order_of [\<lparr>productId = P1, qty = - 1\<rparr>]) 7 store1 =
     (Inr (201, PDict [(''id'', PStr P2)]),
      store1\<lparr>orders_collection :=
          [(2, \<lparr>o_userId = ''u1'',
                o_items = [\<lparr>productDetails = \<lparr>pd_name = ''Tee'', pd_id = P1\<rparr>, od_qty = - 1\<rparr>],
                o_total = - 20, o_createdAt = 7\<rparr>)],
        next_oid := 3, calls := [ProductsFindOne 1, OrdersInsertOne]\<rparr>) \<and>
   \<not> (0::real) \<le> - 20"
  by (simp add: eval_defs)

end
